theory Spec2Isabelle
  imports Main
begin

section \<open>Python strings\<close>

text \<open>
  A Python \<open>str\<close> is a sequence of Unicode code points; \<open>len\<close> counts code points.
  A code point is a natural number, a string a list of them. Literals of the source are
  written with \<open>lit\<close>, which maps each character of the literal to its code point.
\<close>

type_synonym codepoint = nat
type_synonym pystr = "codepoint list"

definition lit :: "string \<Rightarrow> pystr" where
  "lit cs = map of_char cs"

text \<open>The line feed character, \<open>"\n"\<close>, is code point 10.\<close>

definition newline :: codepoint where
  "newline = 10"

subsection \<open>The two classifications of the Unicode database that the source consults\<close>

text \<open>
  \<open>str.isalpha\<close> asks whether every character has a general category of letter, and the
  pattern \<open>\d\<close> matches the characters of category decimal number. Below code point 128
  the letters are exactly \<open>A-Z\<close> and \<open>a-z\<close> and the decimal numbers exactly \<open>0-9\<close>.
  The tables for the other code points belong to the interpreter, not to this repository:
  they are a parameter (\<open>ext\<close>) of every function that consults them.
\<close>

definition ascii_upper :: "codepoint \<Rightarrow> bool" where
  "ascii_upper c = (65 \<le> c \<and> c \<le> 90)"

definition ascii_lower :: "codepoint \<Rightarrow> bool" where
  "ascii_lower c = (97 \<le> c \<and> c \<le> 122)"

definition ascii_digit :: "codepoint \<Rightarrow> bool" where
  "ascii_digit c = (48 \<le> c \<and> c \<le> 57)"

definition ascii_letter :: "codepoint \<Rightarrow> bool" where
  "ascii_letter c = (ascii_upper c \<or> ascii_lower c)"

definition unicode_letter :: "(codepoint \<Rightarrow> bool) \<Rightarrow> codepoint \<Rightarrow> bool" where
  "unicode_letter ext c = (if c < 128 then ascii_letter c else ext c)"

definition unicode_decimal :: "(codepoint \<Rightarrow> bool) \<Rightarrow> codepoint \<Rightarrow> bool" where
  "unicode_decimal ext c = (if c < 128 then ascii_digit c else ext c)"

text \<open>\<open>s.isalpha()\<close>: at least one character, and all of them letters.\<close>

definition isalpha :: "(codepoint \<Rightarrow> bool) \<Rightarrow> pystr \<Rightarrow> bool" where
  "isalpha ext s = (s \<noteq> [] \<and> list_all (unicode_letter ext) s)"

subsection \<open>Indexing and formatting\<close>

datatype py_error = IndexError

text \<open>\<open>s[i]\<close> for \<open>i \<ge> 0\<close>: a string of one character, or IndexError out of range.\<close>

definition getitem :: "pystr \<Rightarrow> nat \<Rightarrow> py_error + pystr" where
  "getitem s i = (if i < length s then Inr [s ! i] else Inl IndexError)"

text \<open>The decimal digits of a natural number, and an integer as an f-string prints it.\<close>

fun digits :: "nat \<Rightarrow> pystr" where
  "digits n = (if n < 10 then [48 + n] else digits (n div 10) @ [48 + n mod 10])"

declare digits.simps [simp del]

definition format_int :: "int \<Rightarrow> pystr" where
  "format_int i = (if i < 0 then 45 # digits (nat (- i)) else digits (nat i))"

section \<open>The regular expressions of the source\<close>

text \<open>
  The patterns of the source use: a bracketed character class of ranges and single
  characters, the class escape \<open>\d\<close>, a literal character, the repetitions \<open>+\<close>, \<open>*\<close>
  and \<open>{2,}\<close> of a class, and the anchors \<open>^\<close> and \<open>$\<close>. A pattern is the list of its
  tokens. \<open>Rep cls n\<close> is \<open>cls{n,}\<close>, so \<open>+\<close> is \<open>Rep cls 1\<close> and \<open>*\<close> is \<open>Rep cls 0\<close>.
\<close>

datatype class_item =
    CRange char char
  | Single char
  | Category "codepoint \<Rightarrow> bool"

type_synonym char_class = "class_item list"

datatype token =
    Bol
  | Eol
  | One char_class
  | Rep char_class nat

type_synonym regex = "token list"

fun in_item :: "class_item \<Rightarrow> codepoint \<Rightarrow> bool" where
  "in_item (CRange lo hi) c = (of_char lo \<le> c \<and> c \<le> of_char hi)"
| "in_item (Single x) c = (c = of_char x)"
| "in_item (Category p) c = p c"

definition in_class :: "char_class \<Rightarrow> codepoint \<Rightarrow> bool" where
  "in_class cls c = list_ex (\<lambda>i. in_item i c) cls"

text \<open>
  \<open>match_here r at_start s\<close>: does \<open>r\<close> match a prefix of the rest \<open>s\<close> of the subject
  string; \<open>at_start\<close> says that the rest is the whole subject (position 0). No flag is set
  in the source, so \<open>^\<close> matches at position 0 only, and \<open>$\<close> matches at the end of the
  subject and just before a line feed that is the subject's last character. A repetition
  tries the longer match first; only whether some match exists reaches the callers.
\<close>

fun match_here :: "regex \<Rightarrow> bool \<Rightarrow> pystr \<Rightarrow> bool" where
  "match_here [] at_start s = True"
| "match_here (Bol # r) at_start s = (at_start \<and> match_here r at_start s)"
| "match_here (Eol # r) at_start s = ((s = [] \<or> s = [newline]) \<and> match_here r at_start s)"
| "match_here (One cls # r) at_start [] = False"
| "match_here (One cls # r) at_start (c # s) = (in_class cls c \<and> match_here r False s)"
| "match_here (Rep cls n # r) at_start [] = (n = 0 \<and> match_here r at_start [])"
| "match_here (Rep cls n # r) at_start (c # s) =
     ((in_class cls c \<and> match_here (Rep cls (n - 1) # r) False s)
      \<or> (n = 0 \<and> match_here r at_start (c # s)))"

text \<open>\<open>bool(re.match(r, s))\<close>: a match that starts at position 0.\<close>

definition re_match :: "regex \<Rightarrow> pystr \<Rightarrow> bool" where
  "re_match r s = match_here r True s"

text \<open>\<open>bool(re.search(r, s))\<close>: a match that starts at some position, the end included.\<close>

fun search_from :: "regex \<Rightarrow> bool \<Rightarrow> pystr \<Rightarrow> bool" where
  "search_from r at_start [] = match_here r at_start []"
| "search_from r at_start (c # s) = (match_here r at_start (c # s) \<or> search_from r False s)"

definition re_search :: "regex \<Rightarrow> pystr \<Rightarrow> bool" where
  "re_search r s = search_from r True s"

section \<open>The class Validator\<close>

text \<open>\<open>EMAIL_PATTERN = re.compile(r"^[a-zA-Z0-9._%+-]+@[a-zA-Z0-9.-]+\.[a-zA-Z]{2,}$")\<close>\<close>

definition EMAIL_PATTERN :: regex where
  "EMAIL_PATTERN =
    [Bol,
     Rep [CRange CHR ''a'' CHR ''z'', CRange CHR ''A'' CHR ''Z'', CRange CHR ''0'' CHR ''9'',
          Single CHR ''.'', Single CHR ''_'', Single CHR ''%'', Single CHR ''+'',
          Single CHR ''-''] 1,
     One [Single CHR ''@''],
     Rep [CRange CHR ''a'' CHR ''z'', CRange CHR ''A'' CHR ''Z'', CRange CHR ''0'' CHR ''9'',
          Single CHR ''.'', Single CHR ''-''] 1,
     One [Single CHR ''.''],
     Rep [CRange CHR ''a'' CHR ''z'', CRange CHR ''A'' CHR ''Z''] 2,
     Eol]"

definition MIN_PASSWORD_LENGTH :: int where
  "MIN_PASSWORD_LENGTH = 8"

text \<open>The patterns written in place in the methods.\<close>

definition UPPER_PATTERN :: regex where
  "UPPER_PATTERN = [One [CRange CHR ''A'' CHR ''Z'']]"

definition LOWER_PATTERN :: regex where
  "LOWER_PATTERN = [One [CRange CHR ''a'' CHR ''z'']]"

definition DIGIT_PATTERN :: "(codepoint \<Rightarrow> bool) \<Rightarrow> regex" where
  "DIGIT_PATTERN ext = [One [Category (unicode_decimal ext)]]"

text \<open>\<open>r"^[a-zA-Z][a-zA-Z0-9_-]*$"\<close>\<close>

definition USERNAME_PATTERN :: regex where
  "USERNAME_PATTERN =
    [Bol,
     One [CRange CHR ''a'' CHR ''z'', CRange CHR ''A'' CHR ''Z''],
     Rep [CRange CHR ''a'' CHR ''z'', CRange CHR ''A'' CHR ''Z'', CRange CHR ''0'' CHR ''9'',
          Single CHR ''_'', Single CHR ''-''] 0,
     Eol]"

definition validate_email :: "pystr \<Rightarrow> bool" where
  "validate_email email =
     (if email = [] then False
      else re_match EMAIL_PATTERN email)"

definition validate_password :: "(codepoint \<Rightarrow> bool) \<Rightarrow> pystr \<Rightarrow> bool \<times> pystr" where
  "validate_password ext password =
     (if password = [] then (False, lit ''Password cannot be empty'')
      else if int (length password) < MIN_PASSWORD_LENGTH then
        (False,
         lit ''Password must be at least '' @ format_int MIN_PASSWORD_LENGTH
           @ lit '' characters'')
      else if \<not> re_search UPPER_PATTERN password then
        (False, lit ''Password must contain at least one uppercase letter'')
      else if \<not> re_search LOWER_PATTERN password then
        (False, lit ''Password must contain at least one lowercase letter'')
      else if \<not> re_search (DIGIT_PATTERN ext) password then
        (False, lit ''Password must contain at least one digit'')
      else (True, lit ''Password is valid''))"

definition validate_username :: "(codepoint \<Rightarrow> bool) \<Rightarrow> pystr \<Rightarrow> py_error + bool" where
  "validate_username ext username =
     (if username = [] then Inr False
      else if length username < 3 \<or> length username > 20 then Inr False
      else case getitem username 0 of
             Inl e \<Rightarrow> Inl e
           | Inr first \<Rightarrow>
               if \<not> isalpha ext first then Inr False
               else Inr (re_match USERNAME_PATTERN username))"

subsection \<open>The methods as calls on a receiver\<close>

text \<open>
  A method receives the object \<open>self\<close> and reaches the attributes \<open>EMAIL_PATTERN\<close> and
  \<open>MIN_PASSWORD_LENGTH\<close> through it. A call takes the receiver and the argument and
  returns the result together with the receiver as the call leaves it, so that a second
  call can be run after a first one. No method of the source assigns to an attribute.
  \<open>Validator_class\<close> is the receiver with the attributes as the class body sets them.
\<close>

record Validator =
  email_pattern :: regex
  min_password_length :: int

definition Validator_class :: Validator where
  "Validator_class =
     \<lparr>email_pattern = EMAIL_PATTERN, min_password_length = MIN_PASSWORD_LENGTH\<rparr>"

definition call_validate_email :: "Validator \<Rightarrow> pystr \<Rightarrow> bool \<times> Validator" where
  "call_validate_email self email =
     (if email = [] then (False, self)
      else (re_match (email_pattern self) email, self))"

definition call_validate_password ::
  "(codepoint \<Rightarrow> bool) \<Rightarrow> Validator \<Rightarrow> pystr \<Rightarrow> (bool \<times> pystr) \<times> Validator" where
  "call_validate_password ext self password =
     (if password = [] then ((False, lit ''Password cannot be empty''), self)
      else if int (length password) < min_password_length self then
        ((False,
          lit ''Password must be at least '' @ format_int (min_password_length self)
            @ lit '' characters''), self)
      else if \<not> re_search UPPER_PATTERN password then
        ((False, lit ''Password must contain at least one uppercase letter''), self)
      else if \<not> re_search LOWER_PATTERN password then
        ((False, lit ''Password must contain at least one lowercase letter''), self)
      else if \<not> re_search (DIGIT_PATTERN ext) password then
        ((False, lit ''Password must contain at least one digit''), self)
      else ((True, lit ''Password is valid''), self))"

definition call_validate_username ::
  "(codepoint \<Rightarrow> bool) \<Rightarrow> Validator \<Rightarrow> pystr \<Rightarrow> (py_error + bool) \<times> Validator" where
  "call_validate_username ext self username =
     (if username = [] then (Inr False, self)
      else if length username < 3 \<or> length username > 20 then (Inr False, self)
      else case getitem username 0 of
             Inl e \<Rightarrow> (Inl e, self)
           | Inr first \<Rightarrow>
               if \<not> isalpha ext first then (Inr False, self)
               else (Inr (re_match USERNAME_PATTERN username), self))"

section \<open>The rules as the specification words them\<close>

text \<open>
  The character sets \<open>[A-Za-z0-9._%+-]\<close>, \<open>[A-Za-z0-9.-]\<close> and \<open>[A-Za-z0-9_-]\<close>.
\<close>

definition local_char :: "codepoint \<Rightarrow> bool" where
  "local_char c = (ascii_letter c \<or> ascii_digit c \<or> c \<in> set (lit ''._%+-''))"

definition domain_char :: "codepoint \<Rightarrow> bool" where
  "domain_char c = (ascii_letter c \<or> ascii_digit c \<or> c \<in> set (lit ''.-''))"

definition name_char :: "codepoint \<Rightarrow> bool" where
  "name_char c = (ascii_letter c \<or> ascii_digit c \<or> c \<in> set (lit ''_-''))"

text \<open>
  A whole-string match of the email rule: one or more characters of the first set, \<open>@\<close>,
  one or more characters of the second set, a dot, two or more letters, and nothing else.
\<close>

definition email_whole_match :: "pystr \<Rightarrow> bool" where
  "email_whole_match s =
     (\<exists>local domain tld.
        s = local @ lit ''@'' @ domain @ lit ''.'' @ tld
        \<and> local \<noteq> [] \<and> list_all local_char local
        \<and> domain \<noteq> [] \<and> list_all domain_char domain
        \<and> 2 \<le> length tld \<and> list_all ascii_letter tld)"

text \<open>
  A whole-string match of the username rule: a letter, then any number of letters, digits,
  underscores and hyphens, and nothing else.
\<close>

definition username_whole_match :: "pystr \<Rightarrow> bool" where
  "username_whole_match s =
     (case s of [] \<Rightarrow> False | c # rest \<Rightarrow> ascii_letter c \<and> list_all name_char rest)"

text \<open>
  The variant of \<open>validate_username\<close> without the test of \<open>username[0].isalpha()\<close>.
\<close>

definition validate_username_collapsed :: "pystr \<Rightarrow> py_error + bool" where
  "validate_username_collapsed username =
     (if username = [] then Inr False
      else if length username < 3 \<or> length username > 20 then Inr False
      else Inr (re_match USERNAME_PATTERN username))"

section \<open>Character classes\<close>

lemma in_class_upper:
  "in_class [CRange CHR ''A'' CHR ''Z''] c = ascii_upper c"
  by (simp add: in_class_def ascii_upper_def)

lemma in_class_lower:
  "in_class [CRange CHR ''a'' CHR ''z''] c = ascii_lower c"
  by (simp add: in_class_def ascii_lower_def)

lemma in_class_decimal:
  "in_class [Category p] c = p c"
  by (simp add: in_class_def)

lemma in_class_letter:
  "in_class [CRange CHR ''a'' CHR ''z'', CRange CHR ''A'' CHR ''Z''] c = ascii_letter c"
  by (auto simp add: in_class_def ascii_letter_def ascii_upper_def ascii_lower_def)

lemma in_class_local:
  "in_class [CRange CHR ''a'' CHR ''z'', CRange CHR ''A'' CHR ''Z'', CRange CHR ''0'' CHR ''9'',
          Single CHR ''.'', Single CHR ''_'', Single CHR ''%'', Single CHR ''+'',
          Single CHR ''-''] c = local_char c"
  by (auto simp add: in_class_def local_char_def lit_def ascii_letter_def ascii_upper_def
      ascii_lower_def ascii_digit_def)

lemma in_class_domain:
  "in_class [CRange CHR ''a'' CHR ''z'', CRange CHR ''A'' CHR ''Z'', CRange CHR ''0'' CHR ''9'',
          Single CHR ''.'', Single CHR ''-''] c = domain_char c"
  by (auto simp add: in_class_def domain_char_def lit_def ascii_letter_def ascii_upper_def
      ascii_lower_def ascii_digit_def)

lemma in_class_name:
  "in_class [CRange CHR ''a'' CHR ''z'', CRange CHR ''A'' CHR ''Z'', CRange CHR ''0'' CHR ''9'',
          Single CHR ''_'', Single CHR ''-''] c = name_char c"
  by (auto simp add: in_class_def name_char_def lit_def ascii_letter_def ascii_upper_def
      ascii_lower_def ascii_digit_def)

lemma in_class_at: "in_class [Single CHR ''@''] c = (c = 64)"
  by (simp add: in_class_def)

lemma in_class_dot: "in_class [Single CHR ''.''] c = (c = 46)"
  by (simp add: in_class_def)

section \<open>What the matcher accepts\<close>

lemma match_one:
  "match_here (One cls # r) b s = (\<exists>c t. s = c # t \<and> in_class cls c \<and> match_here r False t)"
  by (cases s) auto

lemma match_rep:
  "match_here (Rep cls n # r) b s =
     (\<exists>pre post. s = pre @ post \<and> n \<le> length pre \<and> list_all (in_class cls) pre
        \<and> match_here r (b \<and> pre = []) post)"
proof (induction s arbitrary: n b)
  case Nil
  then show ?case by auto
next
  case (Cons c s)
  show ?case (is "?L = ?R")
  proof
    assume ?L
    then consider (more) "in_class cls c" "match_here (Rep cls (n - 1) # r) False s"
      | (stop) "n = 0" "match_here r b (c # s)"
      by auto
    then show ?R
    proof cases
      case more
      from more(2) obtain pre post where
        p: "s = pre @ post" "n - 1 \<le> length pre" "list_all (in_class cls) pre"
          "match_here r False post"
        unfolding Cons.IH by auto
      have "c # s = (c # pre) @ post" using p(1) by simp
      moreover have "n \<le> length (c # pre)" using p(2) by simp
      moreover have "list_all (in_class cls) (c # pre)" using p(3) more(1) by simp
      ultimately show ?thesis using p(4) by (intro exI [of _ "c # pre"] exI [of _ post]) simp
    next
      case stop
      then show ?thesis
        by (intro exI [of _ "[]"] exI [of _ "c # s"]) simp
    qed
  next
    assume ?R
    then obtain pre post where
      p: "c # s = pre @ post" "n \<le> length pre" "list_all (in_class cls) pre"
        "match_here r (b \<and> pre = []) post"
      by auto
    show ?L
    proof (cases pre)
      case Nil
      then have "n = 0" "match_here r b (c # s)" using p by simp_all
      then show ?thesis by simp
    next
      case (Cons d pre')
      then have e: "d = c" "s = pre' @ post" using p(1) by simp_all
      have "n - 1 \<le> length pre'" "list_all (in_class cls) pre'" "match_here r False post"
        using p(2,3,4) Cons by simp_all
      then have "match_here (Rep cls (n - 1) # r) False s"
        unfolding Cons.IH using e(2) by (intro exI [of _ pre'] exI [of _ post]) simp
      then show ?thesis using p(3) Cons e(1) by simp
    qed
  qed
qed

lemma search_one:
  "search_from [One cls] b s = list_ex (in_class cls) s"
  by (induction s arbitrary: b) auto


lemma match_eol: "match_here [Eol] b s = (s = [] \<or> s = [newline])"
  by simp

lemma lit_at: "lit ''@'' = [64]"
  by (simp add: lit_def)

lemma lit_dot: "lit ''.'' = [46]"
  by (simp add: lit_def)


lemma shape_email:
  "match_here [Bol, Rep c1 n1, One c2, Rep c3 n3, One c4, Rep c5 n5, Eol] True s =
     (\<exists>l x d y t e. s = l @ x # d @ y # t @ e
        \<and> n1 \<le> length l \<and> list_all (in_class c1) l \<and> in_class c2 x
        \<and> n3 \<le> length d \<and> list_all (in_class c3) d \<and> in_class c4 y
        \<and> n5 \<le> length t \<and> list_all (in_class c5) t \<and> (e = [] \<or> e = [newline]))"
  (is "?L = ?R")
proof
  assume ?L
  then obtain l p1 where 1: "s = l @ p1" "n1 \<le> length l" "list_all (in_class c1) l"
      "match_here [One c2, Rep c3 n3, One c4, Rep c5 n5, Eol] (l = []) p1"
    by (auto simp add: match_rep [of c1])
  from 1(4) obtain x p2 where 2: "p1 = x # p2" "in_class c2 x"
      "match_here [Rep c3 n3, One c4, Rep c5 n5, Eol] False p2"
    by (auto simp add: match_one [of c2])
  from 2(3) obtain d p3 where 3: "p2 = d @ p3" "n3 \<le> length d" "list_all (in_class c3) d"
      "match_here [One c4, Rep c5 n5, Eol] False p3"
    by (auto simp add: match_rep [of c3])
  from 3(4) obtain y p4 where 4: "p3 = y # p4" "in_class c4 y"
      "match_here [Rep c5 n5, Eol] False p4"
    by (auto simp add: match_one [of c4])
  from 4(3) obtain t e where 5: "p4 = t @ e" "n5 \<le> length t" "list_all (in_class c5) t"
      "e = [] \<or> e = [newline]"
    by (auto simp add: match_rep [of c5])
  have "s = l @ x # d @ y # t @ e"
    using 1(1) 2(1) 3(1) 4(1) 5(1) by simp
  then show ?R
    using 1(2,3) 2(2) 3(2,3) 4(2) 5(2,3,4) by blast
next
  assume ?R
  then obtain l x d y t e where s: "s = l @ x # d @ y # t @ e"
    and l: "n1 \<le> length l" "list_all (in_class c1) l" and x: "in_class c2 x"
    and d: "n3 \<le> length d" "list_all (in_class c3) d" and y: "in_class c4 y"
    and t: "n5 \<le> length t" "list_all (in_class c5) t" and e: "e = [] \<or> e = [newline]"
    by blast
  have 5: "match_here [Rep c5 n5, Eol] False (t @ e)"
    unfolding match_rep [of c5]
    using t e by (intro exI [of _ t] exI [of _ e]) auto
  have 4: "match_here [One c4, Rep c5 n5, Eol] False (y # t @ e)"
    using 5 y by simp
  have 3: "match_here [Rep c3 n3, One c4, Rep c5 n5, Eol] False (d @ y # t @ e)"
    unfolding match_rep [of c3]
    using d 4 by (intro exI [of _ d] exI [of _ "y # t @ e"]) simp
  have 2: "match_here [One c2, Rep c3 n3, One c4, Rep c5 n5, Eol] False (x # d @ y # t @ e)"
    using 3 x by simp
  have "match_here [Rep c1 n1, One c2, Rep c3 n3, One c4, Rep c5 n5, Eol] True s"
    unfolding match_rep [of c1] s
    using l 2 by (intro exI [of _ l] exI [of _ "x # d @ y # t @ e"]) simp
  then show ?L by simp
qed


lemma shape_username:
  "match_here [Bol, One c1, Rep c2 n, Eol] True s =
     (\<exists>x t e. s = x # t @ e \<and> in_class c1 x \<and> n \<le> length t \<and> list_all (in_class c2) t
        \<and> (e = [] \<or> e = [newline]))"
  (is "?L = ?R")
proof
  assume ?L
  then obtain x p1 where 1: "s = x # p1" "in_class c1 x" "match_here [Rep c2 n, Eol] False p1"
    by (auto simp add: match_one [of c1])
  from 1(3) obtain t e where 2: "p1 = t @ e" "n \<le> length t" "list_all (in_class c2) t"
      "e = [] \<or> e = [newline]"
    by (auto simp add: match_rep [of c2])
  have "s = x # t @ e" using 1(1) 2(1) by simp
  then show ?R using 1(2) 2(2,3,4) by blast
next
  assume ?R
  then obtain x t e where s: "s = x # t @ e" and x: "in_class c1 x"
    and t: "n \<le> length t" "list_all (in_class c2) t" and e: "e = [] \<or> e = [newline]"
    by blast
  have "match_here [Rep c2 n, Eol] False (t @ e)"
    unfolding match_rep [of c2]
    using t e by (intro exI [of _ t] exI [of _ e]) auto
  then show ?L using x by (simp add: s)
qed

lemma class_local:
  "in_class [CRange CHR ''a'' CHR ''z'', CRange CHR ''A'' CHR ''Z'', CRange CHR ''0'' CHR ''9'',
          Single CHR ''.'', Single CHR ''_'', Single CHR ''%'', Single CHR ''+'',
          Single CHR ''-''] = local_char"
  by (rule ext) (rule in_class_local)

lemma class_domain:
  "in_class [CRange CHR ''a'' CHR ''z'', CRange CHR ''A'' CHR ''Z'', CRange CHR ''0'' CHR ''9'',
          Single CHR ''.'', Single CHR ''-''] = domain_char"
  by (rule ext) (rule in_class_domain)

lemma class_name:
  "in_class [CRange CHR ''a'' CHR ''z'', CRange CHR ''A'' CHR ''Z'', CRange CHR ''0'' CHR ''9'',
          Single CHR ''_'', Single CHR ''-''] = name_char"
  by (rule ext) (rule in_class_name)

lemma class_letter:
  "in_class [CRange CHR ''a'' CHR ''z'', CRange CHR ''A'' CHR ''Z''] = ascii_letter"
  by (rule ext) (rule in_class_letter)

lemma class_upper: "in_class [CRange CHR ''A'' CHR ''Z''] = ascii_upper"
  by (rule ext) (rule in_class_upper)

lemma class_lower: "in_class [CRange CHR ''a'' CHR ''z''] = ascii_lower"
  by (rule ext) (rule in_class_lower)

lemma class_category: "in_class [Category p] = p"
  by (rule ext) (rule in_class_decimal)

lemma email_pattern_accepts:
  "re_match EMAIL_PATTERN s =
     (\<exists>t e. s = t @ e \<and> email_whole_match t \<and> (e = [] \<or> e = [newline]))"
  (is "?L = ?R")
proof
  assume ?L
  then obtain l x d y t e where s: "s = l @ x # d @ y # t @ e"
    and l: "1 \<le> length l" "list_all local_char l" and x: "x = 64"
    and d: "1 \<le> length d" "list_all domain_char d" and y: "y = 46"
    and t: "2 \<le> length t" "list_all ascii_letter t" and e: "e = [] \<or> e = [newline]"
    unfolding re_match_def EMAIL_PATTERN_def shape_email class_local class_domain class_letter
      in_class_at in_class_dot
    by blast
  have "s = (l @ lit ''@'' @ d @ lit ''.'' @ t) @ e"
    using s x y by (simp add: lit_at lit_dot)
  moreover have "email_whole_match (l @ lit ''@'' @ d @ lit ''.'' @ t)"
    unfolding email_whole_match_def
    using l d t by (intro exI [of _ l] exI [of _ d] exI [of _ t]) auto
  ultimately show ?R using e by blast
next
  assume ?R
  then obtain u e where u: "s = u @ e" "email_whole_match u" and e: "e = [] \<or> e = [newline]"
    by blast
  from u(2) obtain l d t where
    s: "u = l @ 64 # d @ 46 # t" and l: "l \<noteq> []" "list_all local_char l"
    and d: "d \<noteq> []" "list_all domain_char d"
    and t: "2 \<le> length t" "list_all ascii_letter t"
    unfolding email_whole_match_def by (auto simp add: lit_at lit_dot)
  have "1 \<le> length l" "1 \<le> length d"
    using l(1) d(1) by (simp_all add: Suc_le_eq)
  moreover have "s = l @ 64 # d @ 46 # t @ e"
    using u(1) s by simp
  ultimately show ?L
    unfolding re_match_def EMAIL_PATTERN_def shape_email class_local class_domain class_letter
      in_class_at in_class_dot
    using l(2) d(2) t e by blast
qed

lemma validate_email_accepts:
  "validate_email s =
     (email_whole_match s \<or> (\<exists>t. s = t @ [newline] \<and> email_whole_match t))"
proof -
  have ne: "\<not> email_whole_match []"
    by (simp add: email_whole_match_def)
  have "validate_email s = re_match EMAIL_PATTERN s"
    using ne by (auto simp add: validate_email_def email_pattern_accepts)
  then show ?thesis
    unfolding email_pattern_accepts by auto
qed

section \<open>Facts about the code\<close>

subsection \<open>Passwords\<close>

lemma re_search_upper: "re_search UPPER_PATTERN s = list_ex ascii_upper s"
  by (simp add: re_search_def UPPER_PATTERN_def search_one class_upper)

lemma re_search_lower: "re_search LOWER_PATTERN s = list_ex ascii_lower s"
  by (simp add: re_search_def LOWER_PATTERN_def search_one class_lower)

lemma re_search_digit: "re_search (DIGIT_PATTERN ext) s = list_ex (unicode_decimal ext) s"
  by (simp add: re_search_def DIGIT_PATTERN_def search_one class_category)

lemma lit_append: "lit (a @ b) = lit a @ lit b"
  by (simp add: lit_def)

lemma lit_inject: "(lit a = lit b) = (a = b)"
  unfolding lit_def by (rule inj_map_eq_map) (rule inj_of_char)

lemma format_min_length: "format_int MIN_PASSWORD_LENGTH = lit ''8''"
  by (simp add: MIN_PASSWORD_LENGTH_def format_int_def digits.simps [of 8] lit_def)

lemma too_short_message:
  "lit ''Password must be at least '' @ format_int MIN_PASSWORD_LENGTH @ lit '' characters''
     = lit ''Password must be at least 8 characters''"
  unfolding format_min_length lit_append [symmetric] by simp

lemma too_short_test: "(int (length s) < MIN_PASSWORD_LENGTH) = (length s < 8)"
  by (simp add: MIN_PASSWORD_LENGTH_def)

lemma validate_password_cases:
  "validate_password ext s =
     (if s = [] then (False, lit ''Password cannot be empty'')
      else if length s < 8 then (False, lit ''Password must be at least 8 characters'')
      else if \<not> list_ex ascii_upper s then
        (False, lit ''Password must contain at least one uppercase letter'')
      else if \<not> list_ex ascii_lower s then
        (False, lit ''Password must contain at least one lowercase letter'')
      else if \<not> list_ex (unicode_decimal ext) s then
        (False, lit ''Password must contain at least one digit'')
      else (True, lit ''Password is valid''))"
  unfolding validate_password_def too_short_message too_short_test
    re_search_upper re_search_lower re_search_digit
  by (rule refl)

subsection \<open>Usernames\<close>

lemma ascii_letter_unicode: "ascii_letter c \<Longrightarrow> unicode_letter ext c"
  by (auto simp add: unicode_letter_def ascii_letter_def ascii_upper_def ascii_lower_def)

lemma username_pattern_accepts:
  "re_match USERNAME_PATTERN s =
     (\<exists>t e. s = t @ e \<and> username_whole_match t \<and> (e = [] \<or> e = [newline]))"
  (is "?L = ?R")
proof
  assume ?L
  then obtain x t e where s: "s = x # t @ e" and x: "ascii_letter x"
    and t: "list_all name_char t" and e: "e = [] \<or> e = [newline]"
    unfolding re_match_def USERNAME_PATTERN_def shape_username class_name in_class_letter
    by blast
  have "s = (x # t) @ e" using s by simp
  moreover have "username_whole_match (x # t)"
    using x t by (simp add: username_whole_match_def)
  ultimately show ?R using e by blast
next
  assume ?R
  then obtain u e where u: "s = u @ e" "username_whole_match u" and e: "e = [] \<or> e = [newline]"
    by blast
  from u(2) obtain x t where x: "u = x # t" "ascii_letter x" "list_all name_char t"
    by (auto simp add: username_whole_match_def split: list.splits)
  have "s = x # t @ e" using u(1) x(1) by simp
  then show ?L
    unfolding re_match_def USERNAME_PATTERN_def shape_username class_name in_class_letter
    using x(2,3) e by blast
qed

lemma username_pattern_first:
  assumes "re_match USERNAME_PATTERN s"
  shows "s \<noteq> [] \<and> ascii_letter (s ! 0)"
proof -
  from assms obtain t e where s: "s = t @ e" and t: "username_whole_match t"
    unfolding username_pattern_accepts by blast
  from t obtain x r where "t = x # r" "ascii_letter x"
    by (auto simp add: username_whole_match_def split: list.splits)
  then show ?thesis using s by simp
qed

lemma validate_username_collapsed_eq:
  "validate_username ext s = validate_username_collapsed s"
proof (cases "s = [] \<or> length s < 3 \<or> length s > 20")
  case True
  then show ?thesis
    by (auto simp add: validate_username_def validate_username_collapsed_def)
next
  case False
  then have g: "getitem s 0 = Inr [s ! 0]"
    by (simp add: getitem_def)
  show ?thesis
  proof (cases "unicode_letter ext (s ! 0)")
    case True
    then show ?thesis
      using False g
      by (simp add: validate_username_def validate_username_collapsed_def isalpha_def)
  next
    case nl: False
    then have "\<not> re_match USERNAME_PATTERN s"
      using username_pattern_first [of s] ascii_letter_unicode [of "s ! 0" ext] by blast
    then show ?thesis
      using False g nl
      by (simp add: validate_username_def validate_username_collapsed_def isalpha_def)
  qed
qed

lemma validate_username_accepts:
  "validate_username ext s =
     Inr (3 \<le> length s \<and> length s \<le> 20
          \<and> (\<exists>t e. s = t @ e \<and> username_whole_match t \<and> (e = [] \<or> e = [newline])))"
proof -
  have "\<not> username_whole_match []"
    by (simp add: username_whole_match_def)
  then show ?thesis
    unfolding validate_username_collapsed_eq validate_username_collapsed_def
      username_pattern_accepts
    by auto
qed

subsection \<open>Emails\<close>

lemma email_whole_match_last:
  assumes "email_whole_match s"
  shows "s \<noteq> [] \<and> ascii_letter (last s)"
proof -
  from assms obtain l d t where s: "s = l @ lit ''@'' @ d @ lit ''.'' @ t"
    and t: "2 \<le> length t" "list_all ascii_letter t"
    unfolding email_whole_match_def by blast
  from t(1) have ne: "t \<noteq> []" by auto
  then have "last s = last t" using s by simp
  moreover have "ascii_letter (last t)"
    using t(2) ne by (simp add: list_all_iff)
  ultimately show ?thesis using s ne by simp
qed

lemma newline_not_letter: "\<not> ascii_letter newline"
  by (simp add: ascii_letter_def ascii_upper_def ascii_lower_def newline_def)

subsection \<open>Calls on a receiver\<close>

lemma call_validate_email_class:
  "call_validate_email Validator_class email = (validate_email email, Validator_class)"
  by (simp add: call_validate_email_def validate_email_def Validator_class_def)

lemma call_validate_password_class:
  "call_validate_password ext Validator_class password
     = (validate_password ext password, Validator_class)"
  by (simp add: call_validate_password_def validate_password_def Validator_class_def)

lemma call_validate_username_class:
  "call_validate_username ext Validator_class username
     = (validate_username ext username, Validator_class)"
  by (simp add: call_validate_username_def validate_username_def split: sum.splits)

lemma call_validate_email_receiver: "snd (call_validate_email self email) = self"
  by (simp add: call_validate_email_def)

lemma call_validate_password_receiver: "snd (call_validate_password ext self password) = self"
  by (simp add: call_validate_password_def)

lemma call_validate_username_receiver: "snd (call_validate_username ext self username) = self"
  by (simp add: call_validate_username_def split: sum.splits)

section \<open>The claims\<close>

text \<open>
  Claim C1. For every string, \<open>validate_password\<close> applies its five checks in the order
  empty, shorter than 8, no character in \<open>A-Z\<close>, no character in \<open>a-z\<close>, no decimal
  digit; the first check that fails decides the result, which is false with the message of
  that check, and a password that passes them all gives true with \<open>Password is valid\<close>.
  A decimal digit is a character that \<open>\d\<close> matches.
\<close>

theorem validate_password_priority:
  "validate_password ext s =
     (if s = [] then (False, lit ''Password cannot be empty'')
      else if length s < 8 then (False, lit ''Password must be at least 8 characters'')
      else if \<not> list_ex ascii_upper s then
        (False, lit ''Password must contain at least one uppercase letter'')
      else if \<not> list_ex ascii_lower s then
        (False, lit ''Password must contain at least one lowercase letter'')
      else if \<not> list_ex (unicode_decimal ext) s then
        (False, lit ''Password must contain at least one digit'')
      else (True, lit ''Password is valid''))"
  by (rule validate_password_cases)

text \<open>
  Claim C2. \<open>validate_email\<close> is to accept exactly the non-empty strings that the email
  rule matches as a whole. The source accepts \<open>"user@example.com\n"\<close>, which the rule
  does not match as a whole: its last character is a line feed, not a letter.
\<close>

theorem validate_email_trailing_newline:
  "validate_email (lit ''user@example.com'' @ [newline]) = True
   \<and> \<not> email_whole_match (lit ''user@example.com'' @ [newline])"
proof
  show "validate_email (lit ''user@example.com'' @ [newline]) = True"
    by (simp add: validate_email_def re_match_def EMAIL_PATTERN_def in_class_def lit_def
        newline_def)
  show "\<not> email_whole_match (lit ''user@example.com'' @ [newline])"
    using email_whole_match_last [of "lit ''user@example.com'' @ [newline]"] newline_not_letter
    by auto
qed

text \<open>
  Claim C3. \<open>validate_username\<close> is to accept exactly the strings of 3 to 20 characters
  that the username rule matches as a whole. The source accepts \<open>"abc\n"\<close>, of length 4,
  whose last character is none of the characters a username may contain.
\<close>

theorem validate_username_trailing_newline:
  "validate_username ext (lit ''abc'' @ [newline]) = Inr True
   \<and> \<not> username_whole_match (lit ''abc'' @ [newline])"
  by (simp add: validate_username_def getitem_def isalpha_def unicode_letter_def
      re_match_def USERNAME_PATTERN_def in_class_def lit_def newline_def
      username_whole_match_def name_char_def ascii_letter_def ascii_upper_def ascii_lower_def
      ascii_digit_def)

text \<open>
  Claim C4. On every string, \<open>validate_username\<close> returns what the variant without the
  test of \<open>username[0].isalpha()\<close> returns.
\<close>

theorem validate_username_isalpha_redundant:
  "validate_username ext s = validate_username_collapsed s"
  by (rule validate_username_collapsed_eq)

text \<open>
  Claim C5. No call raises: \<open>validate_username\<close>, the one method with an operation that
  can raise (\<open>username[0]\<close>), returns a boolean on every string, and \<open>validate_email\<close>
  and \<open>validate_password\<close> return a boolean and a pair. The message that
  \<open>validate_password\<close> returns is one of the five messages of rejection or
  \<open>Password is valid\<close>.
\<close>

theorem validators_total:
  "(\<exists>b. validate_username ext s = Inr b)
   \<and> (validate_email s = True \<or> validate_email s = False)
   \<and> (\<exists>b. fst (validate_password ext' s) = b)
   \<and> snd (validate_password ext' s) \<in>
       {lit ''Password cannot be empty'',
        lit ''Password must be at least 8 characters'',
        lit ''Password must contain at least one uppercase letter'',
        lit ''Password must contain at least one lowercase letter'',
        lit ''Password must contain at least one digit'',
        lit ''Password is valid''}"
proof (intro conjI)
  show "\<exists>b. validate_username ext s = Inr b"
    unfolding validate_username_accepts by blast
  show "validate_email s = True \<or> validate_email s = False"
    by blast
  show "\<exists>b. fst (validate_password ext' s) = b"
    by blast
  show "snd (validate_password ext' s) \<in>
       {lit ''Password cannot be empty'',
        lit ''Password must be at least 8 characters'',
        lit ''Password must contain at least one uppercase letter'',
        lit ''Password must contain at least one lowercase letter'',
        lit ''Password must contain at least one digit'',
        lit ''Password is valid''}"
    unfolding validate_password_cases by simp
qed

text \<open>
  Claim C6. \<open>validate_password\<close> returns false with \<open>Password cannot be empty\<close> if and
  only if the string is empty.
\<close>

theorem validate_password_empty_iff:
  "(validate_password ext s = (False, lit ''Password cannot be empty'')) = (s = [])"
  by (simp add: validate_password_cases lit_inject)

text \<open>
  Claim C7. A password of exactly 8 characters with a character in \<open>A-Z\<close>, one in
  \<open>a-z\<close> and a decimal digit is accepted; a non-empty password of at most 7 characters
  is rejected with the message about the length, whatever its characters.
\<close>

theorem validate_password_boundary:
  "(length s = 8 \<and> list_ex ascii_upper s \<and> list_ex ascii_lower s
      \<and> list_ex (unicode_decimal ext) s
     \<longrightarrow> validate_password ext s = (True, lit ''Password is valid''))
   \<and> (t \<noteq> [] \<and> length t \<le> 7
     \<longrightarrow> validate_password ext t = (False, lit ''Password must be at least 8 characters''))"
  by (auto simp add: validate_password_cases)

theorem validate_password_boundary_witness:
  "(length (lit ''Passw0rd'') = 8 \<and> list_ex ascii_upper (lit ''Passw0rd'')
      \<and> list_ex ascii_lower (lit ''Passw0rd'')
      \<and> list_ex (unicode_decimal (\<lambda>c. False)) (lit ''Passw0rd''))
   \<and> validate_password (\<lambda>c. False) (lit ''Passw0rd'') = (True, lit ''Password is valid'')
   \<and> (lit ''Passw0r'' \<noteq> [] \<and> length (lit ''Passw0r'') \<le> 7)
   \<and> validate_password (\<lambda>c. False) (lit ''Passw0r'')
       = (False, lit ''Password must be at least 8 characters'')"
  using validate_password_boundary [of "lit ''Passw0rd''" "\<lambda>c. False" "lit ''Passw0r''"]
  by (simp add: lit_def ascii_upper_def ascii_lower_def unicode_decimal_def ascii_digit_def)

text \<open>
  Claim C8. A username of exactly 3 or exactly 20 characters that is a letter followed by
  letters, digits, underscores and hyphens is accepted; a username of 2 or of 21
  characters is rejected.
\<close>

theorem validate_username_boundary:
  "((length s = 3 \<or> length s = 20) \<and> username_whole_match s
      \<longrightarrow> validate_username ext s = Inr True)
   \<and> ((length t = 2 \<or> length t = 21) \<longrightarrow> validate_username ext t = Inr False)"
proof (intro conjI impI)
  assume a: "(length s = 3 \<or> length s = 20) \<and> username_whole_match s"
  then have "s = s @ [] \<and> username_whole_match s \<and> ([] = [] \<or> [] = [newline])"
    by simp
  then have "\<exists>u e. s = u @ e \<and> username_whole_match u \<and> (e = [] \<or> e = [newline])"
    by blast
  then show "validate_username ext s = Inr True"
    unfolding validate_username_accepts using a by auto
next
  assume "length t = 2 \<or> length t = 21"
  then show "validate_username ext t = Inr False"
    unfolding validate_username_accepts by auto
qed

theorem validate_username_boundary_witness:
  "((length (lit ''abc'') = 3 \<or> length (lit ''abc'') = 20) \<and> username_whole_match (lit ''abc''))
   \<and> validate_username (\<lambda>c. False) (lit ''abc'') = Inr True
   \<and> ((length (lit ''a234567890123456_-yz'') = 3 \<or> length (lit ''a234567890123456_-yz'') = 20)
       \<and> username_whole_match (lit ''a234567890123456_-yz''))
   \<and> validate_username (\<lambda>c. False) (lit ''a234567890123456_-yz'') = Inr True
   \<and> (length (lit ''ab'') = 2 \<or> length (lit ''ab'') = 21)
   \<and> validate_username (\<lambda>c. False) (lit ''ab'') = Inr False
   \<and> (length (lit ''a23456789012345678901'') = 2 \<or> length (lit ''a23456789012345678901'') = 21)
   \<and> validate_username (\<lambda>c. False) (lit ''a23456789012345678901'') = Inr False"
  using validate_username_boundary [of "lit ''abc''" "\<lambda>c. False" "lit ''ab''"]
    validate_username_boundary [of "lit ''a234567890123456_-yz''" "\<lambda>c. False"
      "lit ''a23456789012345678901''"]
  by (simp add: lit_def username_whole_match_def name_char_def ascii_letter_def ascii_upper_def
      ascii_lower_def ascii_digit_def)

text \<open>
  Claim C9. Each validator returns one result when it is called twice with one input: for
  every receiver and every string, the second call, run on the receiver as the first call
  left it, returns what the first call returned. On the receiver of the source the result
  is the value of \<open>validate_email\<close>, \<open>validate_password\<close> and \<open>validate_username\<close>.
\<close>

theorem validators_deterministic:
  "fst (call_validate_email (snd (call_validate_email self x)) x)
     = fst (call_validate_email self x)
   \<and> fst (call_validate_password ext (snd (call_validate_password ext self x)) x)
     = fst (call_validate_password ext self x)
   \<and> fst (call_validate_username ext (snd (call_validate_username ext self x)) x)
     = fst (call_validate_username ext self x)
   \<and> fst (call_validate_email Validator_class x) = validate_email x
   \<and> fst (call_validate_password ext Validator_class x) = validate_password ext x
   \<and> fst (call_validate_username ext Validator_class x) = validate_username ext x"
  by (simp add: call_validate_email_receiver call_validate_password_receiver
      call_validate_username_receiver call_validate_email_class call_validate_password_class
      call_validate_username_class)

text \<open>
  Claim C10 says that a line feed appended to an accepted email gives an accepted email.
  It fails when the accepted email ends with a line feed already: \<open>$\<close> matches before
  one final line feed, not before two.
\<close>

theorem validate_email_second_newline_counterexample:
  "validate_email (lit ''user@example.com'' @ [newline])
   \<and> \<not> validate_email ((lit ''user@example.com'' @ [newline]) @ [newline])"
  by (simp add: validate_email_def re_match_def EMAIL_PATTERN_def in_class_def lit_def
        newline_def)

text \<open>
  Claim C10, amended. A line feed appended to an accepted email that does not end with a
  line feed gives an accepted email.
\<close>

theorem validate_email_newline_appended:
  assumes "validate_email s" and "last s \<noteq> newline"
  shows "validate_email (s @ [newline])"
proof -
  from assms have "email_whole_match s"
    unfolding validate_email_accepts by auto
  then show ?thesis
    unfolding validate_email_accepts by simp
qed

theorem validate_email_newline_appended_witness:
  "validate_email (lit ''user@example.com'')
   \<and> last (lit ''user@example.com'') \<noteq> newline
   \<and> validate_email (lit ''user@example.com'' @ [newline])"
proof -
  have a: "validate_email (lit ''user@example.com'')"
    by (simp add: validate_email_def re_match_def EMAIL_PATTERN_def in_class_def lit_def
        newline_def)
  have b: "last (lit ''user@example.com'') \<noteq> newline"
    by (simp add: lit_def newline_def)
  show ?thesis
    using a b validate_email_newline_appended [OF a b] by simp
qed

end
